theory Spec2Isabelle
  imports Main
begin

section \<open>AltTabHide: hiding applications from the Alt-Tab switcher\<close>

text \<open>
  A shallow embedding of the GNOME Shell extension \<^verbatim>\<open>alttabhide@koter84.github.com\<close>
  (\<^verbatim>\<open>extension.js\<close>, \<^verbatim>\<open>prefs.js\<close>) and of its older copy
  \<^verbatim>\<open>alttabhide@koter84.github.io/extension.js\<close>. The two copies of
  \<^verbatim>\<open>extension.js\<close> have the same control flow; the \<^verbatim>\<open>.com\<close> copy adds calls of
  \<^verbatim>\<open>log\<close>. What \<^verbatim>\<open>log\<close> prints is not modelled; an argument of \<^verbatim>\<open>log\<close> whose
  evaluation can throw is.
\<close>

subsection \<open>Host objects\<close>

text \<open>
  \<^verbatim>\<open>Shell.App\<close>: the extension only calls \<^verbatim>\<open>get_id()\<close> on it. \<^verbatim>\<open>Meta.Window\<close>: an
  opaque reference, named by a number. A reference that may be \<^verbatim>\<open>null\<close> or
  \<^verbatim>\<open>undefined\<close> is an \<open>option\<close>; an object reference is truthy, \<open>None\<close> is falsy.
\<close>

record app =
  app_id :: string

datatype window = Window nat

text \<open>\<^verbatim>\<open>Gio.Settings\<close> of the extension: the one key \<^verbatim>\<open>hidden-apps\<close>, a string array.\<close>

record gsettings =
  hidden_apps :: "string list"

text \<open>The extension object: \<^verbatim>\<open>this._settings\<close> is \<^verbatim>\<open>null\<close> until \<^verbatim>\<open>enable()\<close>.\<close>

record extension =
  settings :: "gsettings option"

text \<open>
  The calls into the host that a filtering decision makes, in the order made:
  \<^verbatim>\<open>this._settings.get_strv('hidden-apps')\<close>, \<^verbatim>\<open>tracker.get_window_app(window)\<close> and
  \<^verbatim>\<open>app.get_id()\<close>. Each decision returns its value together with this list.
\<close>

datatype hostcall = Get_strv | Get_window_app window | Get_id app

type_synonym tracker = "window \<Rightarrow> app option"

subsection \<open>The filter predicate (extension.js)\<close>

text \<open>
  \<^verbatim>\<open>_getHiddenApps() { if (!this._settings) return []; return this._settings.get_strv('hidden-apps'); }\<close>
\<close>

definition getHiddenApps :: "extension \<Rightarrow> string list \<times> hostcall list" where
  "getHiddenApps ext =
     (case settings ext of
        None \<Rightarrow> ([], [])
      | Some s \<Rightarrow> (hidden_apps s, [Get_strv]))"

text \<open>
  \<^verbatim>\<open>_shouldHideApp(app)\<close>: \<^verbatim>\<open>if (hiddenApps.length === 0 || !app) return false;\<close> then
  \<^verbatim>\<open>hiddenApps.includes(app.get_id())\<close>. The \<^verbatim>\<open>||\<close> does not look at \<^verbatim>\<open>app\<close> when the
  list is empty.
\<close>

definition shouldHideApp :: "extension \<Rightarrow> app option \<Rightarrow> bool \<times> hostcall list" where
  "shouldHideApp ext app =
     (let (hiddenApps, calls) = getHiddenApps ext in
      if length hiddenApps = 0 then (False, calls)
      else (case app of
              None \<Rightarrow> (False, calls)
            | Some a \<Rightarrow>
                (let appId = app_id a;
                     shouldHide = (appId \<in> set hiddenApps)
                 in (shouldHide, calls @ [Get_id a]))))"

text \<open>
  \<^verbatim>\<open>_shouldHideWindow(window)\<close>: returns false on the empty list before the tracker is
  asked; otherwise \<^verbatim>\<open>tracker.get_window_app(window)\<close>, false when that is null, else
  \<^verbatim>\<open>hiddenApps.includes(app.get_id())\<close>.
\<close>

definition shouldHideWindow :: "extension \<Rightarrow> tracker \<Rightarrow> window \<Rightarrow> bool \<times> hostcall list" where
  "shouldHideWindow ext tr w =
     (let (hiddenApps, calls) = getHiddenApps ext in
      if length hiddenApps = 0 then (False, calls)
      else (case tr w of
              None \<Rightarrow> (False, calls @ [Get_window_app w])
            | Some a \<Rightarrow>
                (let appId = app_id a;
                     shouldHide = (appId \<in> set hiddenApps)
                 in (shouldHide, calls @ [Get_window_app w, Get_id a]))))"

subsection \<open>Window-list overrides (extension.js, \<^verbatim>\<open>_setupAltTabFiltering\<close>)\<close>

text \<open>
  JavaScript arrays are objects with identity. A store is the list of the arrays
  allocated so far; a reference is an index into it, and allocation appends. The host
  hands out references to live arrays only.
\<close>

type_synonym addr = nat

type_synonym 'a store = "'a list list"

text \<open>
  \<^verbatim>\<open>Array.prototype.filter\<close>: calls the callback on every element in order and collects
  the elements it accepts; the receiver is left as it is.
\<close>

fun array_filter :: "('a \<Rightarrow> bool \<times> hostcall list) \<Rightarrow> 'a list \<Rightarrow> 'a list \<times> hostcall list" where
  "array_filter cb [] = ([], [])"
| "array_filter cb (x # xs) =
     (let (keep, c) = cb x;
          (rest, cs) = array_filter cb xs
      in (if keep then x # rest else rest, c @ cs))"

text \<open>The callback \<^verbatim>\<open>window => !self._shouldHideWindow(window)\<close>.\<close>

definition notHidden :: "extension \<Rightarrow> tracker \<Rightarrow> window \<Rightarrow> bool \<times> hostcall list" where
  "notHidden ext tr w = (let (hide, c) = shouldHideWindow ext tr w in (\<not> hide, c))"

text \<open>
  The body the three overrides share:
  \<^verbatim>\<open>const windows = originalMethod.call(this, ...args);\<close>
  \<^verbatim>\<open>const filteredWindows = windows.filter(window => !self._shouldHideWindow(window));\<close>
  \<^verbatim>\<open>return filteredWindows;\<close>
  The original routine of the host is a parameter: it returns a reference and may
  allocate.
\<close>

definition filteredWindows ::
  "extension \<Rightarrow> tracker \<Rightarrow> (window store \<Rightarrow> addr \<times> window store) \<Rightarrow> window store
     \<Rightarrow> (addr \<times> window store) \<times> hostcall list" where
  "filteredWindows ext tr originalMethod st =
     (let (windows, st1) = originalMethod st;
          (kept, calls) = array_filter (notHidden ext tr) (st1 ! windows)
      in ((length st1, st1 @ [kept]), calls))"

definition WindowSwitcherPopup_getWindowList ::
  "extension \<Rightarrow> tracker \<Rightarrow> (window store \<Rightarrow> addr \<times> window store) \<Rightarrow> window store
     \<Rightarrow> (addr \<times> window store) \<times> hostcall list" where
  "WindowSwitcherPopup_getWindowList = filteredWindows"

definition WindowCyclerPopup_getWindows ::
  "extension \<Rightarrow> tracker \<Rightarrow> (window store \<Rightarrow> addr \<times> window store) \<Rightarrow> window store
     \<Rightarrow> (addr \<times> window store) \<times> hostcall list" where
  "WindowCyclerPopup_getWindows = filteredWindows"

definition GroupCyclerPopup_getWindows ::
  "extension \<Rightarrow> tracker \<Rightarrow> (window store \<Rightarrow> addr \<times> window store) \<Rightarrow> window store
     \<Rightarrow> (addr \<times> window store) \<times> hostcall list" where
  "GroupCyclerPopup_getWindows = filteredWindows"

text \<open>The array a call returned: the contents of the returned reference.\<close>

definition returned :: "(addr \<times> 'a store) \<times> hostcall list \<Rightarrow> 'a list" where
  "returned r = snd (fst r) ! fst (fst r)"

subsection \<open>Main switcher override (extension.js, \<^verbatim>\<open>AppSwitcherPopup._init\<close>)\<close>

datatype error = TypeError

text \<open>An entry of the icons array: \<^verbatim>\<open>appIcon.app\<close> may be missing.\<close>

record appIcon =
  icon_app :: "app option"

text \<open>
  \<^verbatim>\<open>this._switcherList\<close>: its \<^verbatim>\<open>icons\<close> property (a reference to an array, or
  undefined), the state of the host's list widget, and its \<^verbatim>\<open>removeItem\<close> property
  when that is a function. The host's \<^verbatim>\<open>removeItem(index)\<close> is taken as a function of
  the index on the widget state.
\<close>

record 'v appSwitcher =
  icons :: "addr option"
  visual :: "'v"
  removeItem :: "(nat \<Rightarrow> 'v \<Rightarrow> 'v) option"

text \<open>The popup (\<^verbatim>\<open>this\<close> of the override): \<^verbatim>\<open>_items\<close> and \<^verbatim>\<open>_switcherList\<close>.\<close>

record 'v appSwitcherPopup =
  items :: "addr option"
  switcherList :: "'v appSwitcher option"

text \<open>
  The state the override works on: the arrays of icons, the popup, and the indices
  \<^verbatim>\<open>removeItem\<close> was called with, in call order.
\<close>

record 'v world =
  arrays :: "appIcon option store"
  popup :: "'v appSwitcherPopup"
  removeItem_calls :: "nat list"

text \<open>\<^verbatim>\<open>array.splice(idx, 1)\<close> for \<open>idx \<ge> 0\<close>: beyond the end it removes nothing.\<close>

definition splice1 :: "nat \<Rightarrow> 'a list \<Rightarrow> 'a list" where
  "splice1 idx xs = take idx xs @ drop (Suc idx) xs"

text \<open>
  The first loop, \<^verbatim>\<open>for (let i = 0; i < this._items.length; i++)\<close>: index \<open>i\<close> is pushed
  when \<^verbatim>\<open>appIcon && appIcon.app\<close> and \<^verbatim>\<open>hiddenApps.includes(appIcon.app.get_id())\<close>.
\<close>

function collectIndices :: "string list \<Rightarrow> appIcon option list \<Rightarrow> nat \<Rightarrow> nat list \<Rightarrow> nat list" where
  "collectIndices hiddenApps its i indicesToRemove =
     (if i < length its then
        (case its ! i of
           None \<Rightarrow> collectIndices hiddenApps its (i + 1) indicesToRemove
         | Some appIcon \<Rightarrow>
             (case icon_app appIcon of
                None \<Rightarrow> collectIndices hiddenApps its (i + 1) indicesToRemove
              | Some a \<Rightarrow>
                  if app_id a \<in> set hiddenApps
                  then collectIndices hiddenApps its (i + 1) (indicesToRemove @ [i])
                  else collectIndices hiddenApps its (i + 1) indicesToRemove))
      else indicesToRemove)"
  by pat_completeness auto
termination
  by (relation "measure (\<lambda>(hiddenApps, its, i, indicesToRemove). length its - i)") auto

declare collectIndices.simps [simp del]

text \<open>
  The second loop, \<^verbatim>\<open>for (let i = indicesToRemove.length - 1; i >= 0; i--)\<close>; the first
  argument is \<open>i + 1\<close>. Inside the guard
  \<^verbatim>\<open>this._switcherList && typeof this._switcherList.removeItem === 'function'\<close> it runs
  \<^verbatim>\<open>this._switcherList.icons.splice(idx, 1)\<close>, which throws when \<^verbatim>\<open>icons\<close> is undefined,
  and \<^verbatim>\<open>this._switcherList.removeItem(idx)\<close>.
\<close>

fun removeLoop :: "nat \<Rightarrow> nat list \<Rightarrow> 'v world \<Rightarrow> error + 'v world" where
  "removeLoop 0 indicesToRemove w = Inr w"
| "removeLoop (Suc i) indicesToRemove w =
     (let idx = indicesToRemove ! i in
      case switcherList (popup w) of
        None \<Rightarrow> removeLoop i indicesToRemove w
      | Some sl \<Rightarrow>
          (case removeItem sl of
             None \<Rightarrow> removeLoop i indicesToRemove w
           | Some rm \<Rightarrow>
               (case icons sl of
                  None \<Rightarrow> Inl TypeError
                | Some b \<Rightarrow>
                    removeLoop i indicesToRemove
                      (w\<lparr>arrays := (arrays w)[b := splice1 idx (arrays w ! b)],
                         popup := (popup w)\<lparr>switcherList := Some (sl\<lparr>visual := rm idx (visual sl)\<rparr>)\<rparr>,
                         removeItem_calls := removeItem_calls w @ [idx]\<rparr>))))"

text \<open>
  The override. After the original \<^verbatim>\<open>_init\<close>:
  \<^verbatim>\<open>if (this._items && this._items.length > 0) { ... }\<close>; inside, the two loops, then
  \<^verbatim>\<open>this._items = this._switcherList.icons\<close> (line 199, outside the guard of the second
  loop: it throws when \<^verbatim>\<open>_switcherList\<close> is null or undefined), then a \<^verbatim>\<open>log\<close> whose
  argument reads \<^verbatim>\<open>this._items.length\<close> (line 201: it throws when \<^verbatim>\<open>_items\<close> is now
  undefined; the \<^verbatim>\<open>.io\<close> copy has no such line). The host calls made by
  \<^verbatim>\<open>self._getHiddenApps()\<close> are not recorded here.
\<close>

definition AppSwitcherPopup_init ::
  "extension \<Rightarrow> ('v world \<Rightarrow> error + 'v world) \<Rightarrow> 'v world \<Rightarrow> error + 'v world" where
  "AppSwitcherPopup_init ext originalMethod w0 =
     (case originalMethod w0 of
        Inl e \<Rightarrow> Inl e
      | Inr w \<Rightarrow>
          (case items (popup w) of
             None \<Rightarrow> Inr w
           | Some a \<Rightarrow>
               if length (arrays w ! a) > 0 then
                 (let hiddenApps = fst (getHiddenApps ext);
                      indicesToRemove = collectIndices hiddenApps (arrays w ! a) 0 []
                  in case removeLoop (length indicesToRemove) indicesToRemove w of
                       Inl e \<Rightarrow> Inl e
                     | Inr w1 \<Rightarrow>
                         (case switcherList (popup w1) of
                            None \<Rightarrow> Inl TypeError
                          | Some sl \<Rightarrow>
                              (let w2 = w1\<lparr>popup := (popup w1)\<lparr>items := icons sl\<rparr>\<rparr>
                               in case items (popup w2) of
                                    None \<Rightarrow> Inl TypeError
                                  | Some b \<Rightarrow> Inr w2)))
               else Inr w))"

text \<open>
  An entry the first loop marks: the icon and its \<^verbatim>\<open>app\<close> are present and the
  identifier of the app is in the hidden list.
\<close>

definition hiddenEntry :: "string list \<Rightarrow> appIcon option \<Rightarrow> bool" where
  "hiddenEntry hiddenApps e =
     (case e of
        None \<Rightarrow> False
      | Some appIcon \<Rightarrow>
          (case icon_app appIcon of
             None \<Rightarrow> False
           | Some a \<Rightarrow> app_id a \<in> set hiddenApps))"

subsection \<open>Preferences panel (prefs.js)\<close>

text \<open>
  The widget: its settings object and \<^verbatim>\<open>this._checkboxes\<close>, a map from application
  identifier to check button, of which only the active state matters here.
\<close>

record prefsWidget =
  prefs_settings :: gsettings
  checkboxes :: "string \<rightharpoonup> bool"

text \<open>
  \<^verbatim>\<open>_onAppToggled(appId, isActive)\<close>: reads the list, pushes \<^verbatim>\<open>appId\<close> when active and
  absent, filters it out when inactive and present, and writes the list back.
\<close>

definition onAppToggled :: "string \<Rightarrow> bool \<Rightarrow> prefsWidget \<Rightarrow> prefsWidget" where
  "onAppToggled appId isActive p =
     (let hiddenApps = hidden_apps (prefs_settings p);
          hiddenApps' =
            (if isActive \<and> appId \<notin> set hiddenApps then hiddenApps @ [appId]
             else if \<not> isActive \<and> appId \<in> set hiddenApps
               then filter (\<lambda>i. i \<noteq> appId) hiddenApps
             else hiddenApps)
      in p\<lparr>prefs_settings := (prefs_settings p)\<lparr>hidden_apps := hiddenApps'\<rparr>\<rparr>)"

text \<open>
  \<^verbatim>\<open>checkbox.set_active(v)\<close> of the toolkit: nothing happens when the state is already
  \<open>v\<close>; otherwise the state changes and \<^verbatim>\<open>toggled\<close> is emitted, whose handler
  (prefs.js, line 122) calls \<^verbatim>\<open>this._onAppToggled(appId, checkbox.get_active())\<close>.
\<close>

definition set_active :: "string \<Rightarrow> bool \<Rightarrow> prefsWidget \<Rightarrow> prefsWidget" where
  "set_active appId v p =
     (case checkboxes p appId of
        None \<Rightarrow> p
      | Some cur \<Rightarrow>
          if cur = v then p
          else onAppToggled appId v (p\<lparr>checkboxes := (checkboxes p)(appId \<mapsto> v)\<rparr>))"

text \<open>
  \<^verbatim>\<open>_removeHiddenApp(appId)\<close>: filters \<^verbatim>\<open>appId\<close> out of the list, writes it back, and
  unchecks the checkbox of \<^verbatim>\<open>appId\<close> if there is one.
\<close>

definition removeHiddenApp :: "string \<Rightarrow> prefsWidget \<Rightarrow> prefsWidget" where
  "removeHiddenApp appId p =
     (let hiddenApps = filter (\<lambda>i. i \<noteq> appId) (hidden_apps (prefs_settings p));
          p1 = p\<lparr>prefs_settings := (prefs_settings p)\<lparr>hidden_apps := hiddenApps\<rparr>\<rparr>
      in case checkboxes p1 appId of
           None \<Rightarrow> p1
         | Some cur \<Rightarrow> set_active appId False p1)"

subsection \<open>Notions used to state the results\<close>

text \<open>The indices of the marked entries of an icons array, in increasing order.\<close>

definition markedIndices :: "string list \<Rightarrow> appIcon option list \<Rightarrow> nat list" where
  "markedIndices H its = filter (\<lambda>j. hiddenEntry H (its ! j)) [0..<length its]"

text \<open>An entry without an application: the icon or its \<^verbatim>\<open>app\<close> is missing.\<close>

definition absentApp :: "appIcon option \<Rightarrow> bool" where
  "absentApp e = (case e of None \<Rightarrow> True | Some appIcon \<Rightarrow> icon_app appIcon = None)"

text \<open>
  What a window-list override owes its caller, given that the original routine returned
  the reference \<open>windows\<close> in the store \<open>st1\<close>: the result \<open>r\<close> is a reference other
  than \<open>windows\<close>, it is live, its array holds the windows of the original array that
  the window form of the predicate does not hide, in the original order, and every
  array of \<open>st1\<close>, the original one among them, is as it was.
\<close>

definition filteredCopy ::
  "extension \<Rightarrow> tracker \<Rightarrow> addr \<Rightarrow> window store \<Rightarrow> (addr \<times> window store) \<times> hostcall list \<Rightarrow> bool" where
  "filteredCopy ext tr windows st1 r =
     (fst (fst r) \<noteq> windows \<and>
      fst (fst r) < length (snd (fst r)) \<and>
      returned r = filter (\<lambda>w. \<not> fst (shouldHideWindow ext tr w)) (st1 ! windows) \<and>
      snd (fst r) ! windows = st1 ! windows \<and>
      take (length st1) (snd (fst r)) = st1)"

section \<open>Auxiliary facts\<close>

subsection \<open>The window filter as a list filter\<close>

lemma array_filter_fst: "fst (array_filter cb xs) = filter (\<lambda>x. fst (cb x)) xs"
  by (induction xs) (auto split: prod.splits)

lemma notHidden_fst: "fst (notHidden ext tr w) = (\<not> fst (shouldHideWindow ext tr w))"
  by (simp add: notHidden_def split: prod.splits)

subsection \<open>The two loops of the main switcher override\<close>

text \<open>The first loop collects the marked indices, in increasing order.\<close>

lemma collectIndices_eq:
  "collectIndices H its i acc = acc @ filter (\<lambda>j. hiddenEntry H (its ! j)) [i..<length its]"
proof (induction H its i acc rule: collectIndices.induct)
  case (1 H its i acc)
  show ?case
  proof (cases "i < length its")
    case False
    then show ?thesis by (subst collectIndices.simps) simp
  next
    case True
    then have upt: "[i..<length its] = i # [Suc i..<length its]"
      by (simp add: upt_conv_Cons)
    show ?thesis
    proof (cases "its ! i")
      case None
      with True 1(1) show ?thesis
        by (subst collectIndices.simps) (simp add: upt hiddenEntry_def)
    next
      case (Some appIcon)
      show ?thesis
      proof (cases "icon_app appIcon")
        case None
        with True Some 1(2) show ?thesis
          by (subst collectIndices.simps) (simp add: upt hiddenEntry_def)
      next
        case (Some a)
        note app = this
        show ?thesis
        proof (cases "app_id a \<in> set H")
          case True
          with \<open>i < length its\<close> \<open>its ! i = Some appIcon\<close> app 1(3) show ?thesis
            by (subst collectIndices.simps) (simp add: upt hiddenEntry_def)
        next
          case False
          with \<open>i < length its\<close> \<open>its ! i = Some appIcon\<close> app 1(4) show ?thesis
            by (subst collectIndices.simps) (simp add: upt hiddenEntry_def)
        qed
      qed
    qed
  qed
qed

text \<open>
  Removing the marked indices from the highest to the lowest leaves the unmarked
  entries, in order; the same holds for a second list of the same length.
\<close>

lemma splice1_Suc: "splice1 (Suc j) (x # xs) = x # splice1 j xs"
  by (simp add: splice1_def)

lemma splice1_0: "splice1 0 (x # xs) = xs"
  by (simp add: splice1_def)

lemma foldr_splice1_Suc: "foldr splice1 (map Suc js) (x # xs) = x # foldr splice1 js xs"
  by (induction js) (simp_all add: splice1_Suc)

lemma filter_upt_Suc:
  "filter Q [0..<Suc n] = (if Q 0 then [0] else []) @ map Suc (filter (\<lambda>j. Q (Suc j)) [0..<n])"
proof -
  have "[0..<Suc n] = 0 # map Suc [0..<n]"
    by (simp add: upt_conv_Cons map_Suc_upt del: upt_Suc)
  then show ?thesis
    by (simp add: filter_map comp_def del: upt_Suc)
qed

lemma foldr_splice1_marked:
  "length vs = length its \<Longrightarrow>
   foldr splice1 (filter (\<lambda>j. P (its ! j)) [0..<length its]) vs =
   map snd (filter (\<lambda>(e, v). \<not> P e) (zip its vs))"
proof (induction vs its rule: list_induct2)
  case Nil
  then show ?case by simp
next
  case (Cons v vs e its)
  show ?case
    using Cons.IH
    by (simp add: filter_upt_Suc foldr_splice1_Suc splice1_0 del: upt_Suc)
qed

lemma foldr_splice1_self:
  "foldr splice1 (filter (\<lambda>j. P (its ! j)) [0..<length its]) its = filter (\<lambda>e. \<not> P e) its"
proof (induction its)
  case Nil
  then show ?case by simp
next
  case (Cons e its)
  then show ?case
    by (simp add: filter_upt_Suc foldr_splice1_Suc splice1_0 del: upt_Suc)
qed

text \<open>
  The second loop when the switcher list has a \<^verbatim>\<open>removeItem\<close> function and an
  \<^verbatim>\<open>icons\<close> array, and when there is no switcher list.
\<close>

lemma removeLoop_shape:
  "k \<le> length idxs \<Longrightarrow>
   switcherList (popup w) = Some sl \<Longrightarrow> removeItem sl = Some rm \<Longrightarrow> icons sl = Some b \<Longrightarrow>
   b < length (arrays w) \<Longrightarrow>
   removeLoop k idxs w =
     Inr (w\<lparr>arrays := (arrays w)[b := foldr splice1 (take k idxs) (arrays w ! b)],
            popup := (popup w)\<lparr>switcherList := Some (sl\<lparr>visual := foldr rm (take k idxs) (visual sl)\<rparr>)\<rparr>,
            removeItem_calls := removeItem_calls w @ rev (take k idxs)\<rparr>)"
proof (induction k arbitrary: w sl)
  case 0
  then show ?case by simp
next
  case (Suc k)
  let ?idx = "idxs ! k"
  let ?sl = "sl\<lparr>visual := rm ?idx (visual sl)\<rparr>"
  let ?w = "w\<lparr>arrays := (arrays w)[b := splice1 ?idx (arrays w ! b)],
               popup := (popup w)\<lparr>switcherList := Some ?sl\<rparr>,
               removeItem_calls := removeItem_calls w @ [?idx]\<rparr>"
  from Suc.prems have k: "k \<le> length idxs" and lt: "k < length idxs" by simp_all
  have step: "removeLoop (Suc k) idxs w = removeLoop k idxs ?w"
    using Suc.prems by (simp add: Let_def)
  have tk: "take (Suc k) idxs = take k idxs @ [?idx]"
    using lt by (simp add: take_Suc_conv_app_nth)
  have ih: "removeLoop k idxs ?w =
     Inr (?w\<lparr>arrays := (arrays ?w)[b := foldr splice1 (take k idxs) (arrays ?w ! b)],
            popup := (popup ?w)\<lparr>switcherList := Some (?sl\<lparr>visual := foldr rm (take k idxs) (visual ?sl)\<rparr>)\<rparr>,
            removeItem_calls := removeItem_calls ?w @ rev (take k idxs)\<rparr>)"
    using Suc.prems by (intro Suc.IH [OF k]) simp_all
  show ?case
    unfolding step ih using Suc.prems(5) by (simp add: tk)
qed

lemma removeLoop_no_list:
  "switcherList (popup w) = None \<Longrightarrow> removeLoop k idxs w = Inr w"
  by (induction k) simp_all

lemma markedIndices_desc: "sorted_wrt (>) (rev (markedIndices H its))"
  unfolding markedIndices_def sorted_wrt_rev
  by (rule sorted_wrt_filter) simp

lemma markedIndices_set:
  "set (markedIndices H its) = {j. j < length its \<and> hiddenEntry H (its ! j)}"
  by (auto simp: markedIndices_def)

lemma absent_not_hidden: "absentApp e \<Longrightarrow> \<not> hiddenEntry H e"
  by (auto simp: absentApp_def hiddenEntry_def split: option.splits)

lemma filter_absent_kept:
  "filter absentApp (filter (\<lambda>e. \<not> hiddenEntry H e) its) = filter absentApp its"
  by (induction its) (auto dest: absent_not_hidden)

text \<open>
  The override on a popup of the shape the host's \<^verbatim>\<open>_init\<close> leaves:
  \<^verbatim>\<open>_items\<close> is the \<^verbatim>\<open>icons\<close> array of \<^verbatim>\<open>_switcherList\<close>, which has \<^verbatim>\<open>removeItem\<close>.
\<close>

lemma init_shape:
  assumes "originalMethod w0 = Inr w"
    and "items (popup w) = Some a"
    and "switcherList (popup w) = Some sl"
    and "icons sl = Some a"
    and "removeItem sl = Some rm"
    and "a < length (arrays w)"
  shows "AppSwitcherPopup_init ext originalMethod w0 =
     Inr (w\<lparr>arrays := (arrays w)[a := filter (\<lambda>e. \<not> hiddenEntry (fst (getHiddenApps ext)) e) (arrays w ! a)],
            popup := (popup w)\<lparr>switcherList :=
              Some (sl\<lparr>visual := foldr rm (markedIndices (fst (getHiddenApps ext)) (arrays w ! a)) (visual sl)\<rparr>)\<rparr>,
            removeItem_calls := removeItem_calls w @ rev (markedIndices (fst (getHiddenApps ext)) (arrays w ! a))\<rparr>)"
proof (cases "arrays w ! a = []")
  case True
  then have "markedIndices (fst (getHiddenApps ext)) (arrays w ! a) = []"
    by (simp add: markedIndices_def)
  moreover have "(arrays w)[a := []] = arrays w"
    using True by (metis list_update_id)
  moreover have "(popup w)\<lparr>switcherList := Some sl\<rparr> = popup w"
    using assms(3) by (cases "popup w") simp
  ultimately show ?thesis
    using True assms by (simp add: AppSwitcherPopup_init_def)
next
  case False
  let ?H = "fst (getHiddenApps ext)"
  let ?idxs = "markedIndices ?H (arrays w ! a)"
  have ci: "collectIndices ?H (arrays w ! a) 0 [] = ?idxs"
    by (simp add: collectIndices_eq markedIndices_def)
  have loop: "removeLoop (length ?idxs) ?idxs w =
     Inr (w\<lparr>arrays := (arrays w)[a := foldr splice1 (take (length ?idxs) ?idxs) (arrays w ! a)],
            popup := (popup w)\<lparr>switcherList := Some (sl\<lparr>visual := foldr rm (take (length ?idxs) ?idxs) (visual sl)\<rparr>)\<rparr>,
            removeItem_calls := removeItem_calls w @ rev (take (length ?idxs) ?idxs)\<rparr>)"
    using assms by (intro removeLoop_shape) simp_all
  have self: "foldr splice1 ?idxs (arrays w ! a) = filter (\<lambda>e. \<not> hiddenEntry ?H e) (arrays w ! a)"
    unfolding markedIndices_def by (rule foldr_splice1_self)
  from False assms show ?thesis
    by (simp add: AppSwitcherPopup_init_def ci loop self Let_def)
qed

subsection \<open>The shared body of the window-list overrides\<close>

lemma filteredWindows_copy:
  assumes "originalMethod st = (windows, st1)" and "windows < length st1"
  shows "filteredCopy ext tr windows st1 (filteredWindows ext tr originalMethod st)"
proof -
  obtain kept calls where af: "array_filter (notHidden ext tr) (st1 ! windows) = (kept, calls)"
    by (cases "array_filter (notHidden ext tr) (st1 ! windows)")
  have kept: "kept = filter (\<lambda>w. \<not> fst (shouldHideWindow ext tr w)) (st1 ! windows)"
    using array_filter_fst [of "notHidden ext tr" "st1 ! windows"] af
    by (simp add: notHidden_fst)
  have r: "filteredWindows ext tr originalMethod st = ((length st1, st1 @ [kept]), calls)"
    using assms(1) af by (simp add: filteredWindows_def)
  show ?thesis
    using assms(2) by (simp add: filteredCopy_def r returned_def kept nth_append)
qed

subsection \<open>The list the preferences panel writes back\<close>

lemma onAppToggled_hidden:
  "hidden_apps (prefs_settings (onAppToggled appId isActive p)) =
     (if isActive \<and> appId \<notin> set (hidden_apps (prefs_settings p))
        then hidden_apps (prefs_settings p) @ [appId]
      else if \<not> isActive \<and> appId \<in> set (hidden_apps (prefs_settings p))
        then filter (\<lambda>i. i \<noteq> appId) (hidden_apps (prefs_settings p))
      else hidden_apps (prefs_settings p))"
  by (simp add: onAppToggled_def Let_def)

lemma removeHiddenApp_hidden:
  "hidden_apps (prefs_settings (removeHiddenApp appId p)) =
     filter (\<lambda>i. i \<noteq> appId) (hidden_apps (prefs_settings p))"
  by (simp add: removeHiddenApp_def set_active_def onAppToggled_hidden Let_def
      split: option.splits)

section \<open>Results\<close>

subsection \<open>The filter predicate\<close>

text \<open>
  Claim C1. Let the settings object hold the hidden set \<open>H\<close> under \<^verbatim>\<open>hidden-apps\<close>.
  For every such \<open>H\<close> and every application handle with identifier \<open>c\<close>, the app
  form of the predicate (\<^verbatim>\<open>_shouldHideApp\<close>, the same in both copies of
  \<^verbatim>\<open>extension.js\<close>) returns true exactly when \<open>c\<close> is a member of \<open>H\<close>.
\<close>

theorem shouldHideApp_iff_persisted:
  assumes "settings ext = Some s"
  shows "fst (shouldHideApp ext (Some a)) = (app_id a \<in> set (hidden_apps s))"
  using assms by (simp add: shouldHideApp_def getHiddenApps_def)

text \<open>
  With the calculator and the maps application hidden, the maps application is hidden
  and the file manager is not.
\<close>

theorem shouldHideApp_iff_persisted_witness:
  "(let s = \<lparr>hidden_apps = [''org.gnome.Calculator.desktop'', ''org.gnome.Maps.desktop'']\<rparr>;
        ext = \<lparr>settings = Some s\<rparr>
    in settings ext = Some s \<and>
       fst (shouldHideApp ext (Some \<lparr>app_id = ''org.gnome.Maps.desktop''\<rparr>)) = True \<and>
       fst (shouldHideApp ext (Some \<lparr>app_id = ''org.gnome.Nautilus.desktop''\<rparr>)) = False)"
  using shouldHideApp_iff_persisted [of
      "\<lparr>settings = Some \<lparr>hidden_apps = [''org.gnome.Calculator.desktop'', ''org.gnome.Maps.desktop'']\<rparr>\<rparr>"
      "\<lparr>hidden_apps = [''org.gnome.Calculator.desktop'', ''org.gnome.Maps.desktop'']\<rparr>"
      "\<lparr>app_id = ''org.gnome.Maps.desktop''\<rparr>"]
    shouldHideApp_iff_persisted [of
      "\<lparr>settings = Some \<lparr>hidden_apps = [''org.gnome.Calculator.desktop'', ''org.gnome.Maps.desktop'']\<rparr>\<rparr>"
      "\<lparr>hidden_apps = [''org.gnome.Calculator.desktop'', ''org.gnome.Maps.desktop'']\<rparr>"
      "\<lparr>app_id = ''org.gnome.Nautilus.desktop''\<rparr>"]
  by (simp add: Let_def)

text \<open>
  Claim C4. Whatever the hidden set, a window for which the tracker resolves no
  application is not hidden: the window form of the predicate returns false.
\<close>

theorem unresolved_window_never_hidden:
  "tr w = None \<Longrightarrow> fst (shouldHideWindow ext tr w) = False"
  by (cases "getHiddenApps ext") (simp add: shouldHideWindow_def)

theorem unresolved_window_never_hidden_witness:
  "(\<lambda>w. None) (Window 7) = (None :: app option) \<and>
   fst (shouldHideWindow \<lparr>settings = Some \<lparr>hidden_apps = [''org.gnome.Calculator.desktop'']\<rparr>\<rparr>
          (\<lambda>w. None) (Window 7)) = False"
  using unresolved_window_never_hidden [of "\<lambda>w. None" "Window 7"
      "\<lparr>settings = Some \<lparr>hidden_apps = [''org.gnome.Calculator.desktop'']\<rparr>\<rparr>"]
  by simp

text \<open>
  Claim C6. When the settings reference is null, \<^verbatim>\<open>_getHiddenApps\<close> returns the empty
  list without a call into the host, and nothing is hidden: both forms of the predicate
  return false, the window filter keeps every window, and the first loop of the main
  switcher override marks no index.
\<close>

theorem null_settings_hide_nothing:
  assumes "settings ext = None"
  shows "getHiddenApps ext = ([], []) \<and>
         fst (shouldHideApp ext app) = False \<and>
         fst (shouldHideWindow ext tr w) = False \<and>
         fst (array_filter (notHidden ext tr) ws) = ws \<and>
         collectIndices (fst (getHiddenApps ext)) its 0 [] = []"
proof -
  have g: "getHiddenApps ext = ([], [])"
    using assms by (simp add: getHiddenApps_def)
  have w: "\<And>x. fst (shouldHideWindow ext tr x) = False"
    by (simp add: shouldHideWindow_def g)
  have "collectIndices [] its 0 [] = []"
    by (simp add: collectIndices_eq hiddenEntry_def split: option.splits)
  then show ?thesis
    by (simp add: g w shouldHideApp_def array_filter_fst notHidden_fst)
qed

theorem null_settings_hide_nothing_witness:
  "settings \<lparr>settings = None\<rparr> = None \<and>
   getHiddenApps \<lparr>settings = None\<rparr> = ([], []) \<and>
   fst (shouldHideApp \<lparr>settings = None\<rparr> (Some \<lparr>app_id = ''org.gnome.Calculator.desktop''\<rparr>)) = False \<and>
   fst (shouldHideWindow \<lparr>settings = None\<rparr>
          (\<lambda>w. Some \<lparr>app_id = ''org.gnome.Calculator.desktop''\<rparr>) (Window 1)) = False \<and>
   fst (array_filter
          (notHidden \<lparr>settings = None\<rparr> (\<lambda>w. Some \<lparr>app_id = ''org.gnome.Calculator.desktop''\<rparr>))
          [Window 1, Window 2]) = [Window 1, Window 2]"
  using null_settings_hide_nothing [of "\<lparr>settings = None\<rparr>"
      "Some \<lparr>app_id = ''org.gnome.Calculator.desktop''\<rparr>"
      "\<lambda>w. Some \<lparr>app_id = ''org.gnome.Calculator.desktop''\<rparr>" "Window 1"
      "[Window 1, Window 2]" "[]"]
  by simp

text \<open>
  Claim C7. On the empty hidden set both forms of the predicate return false without
  looking at the candidate: the result is the same for every application handle (a
  missing one too), every window and every tracker, and the only host call made is the
  one that read the settings; neither \<^verbatim>\<open>get_window_app\<close> nor \<^verbatim>\<open>get_id\<close> is called.
\<close>

theorem empty_hidden_set_inspects_nothing:
  assumes "fst (getHiddenApps ext) = []"
  shows "shouldHideApp ext app = (False, snd (getHiddenApps ext)) \<and>
         shouldHideWindow ext tr w = (False, snd (getHiddenApps ext)) \<and>
         Get_window_app w' \<notin> set (snd (shouldHideWindow ext tr w)) \<and>
         Get_id a \<notin> set (snd (shouldHideWindow ext tr w)) \<and>
         Get_id a \<notin> set (snd (shouldHideApp ext app))"
proof -
  obtain c where g: "getHiddenApps ext = ([], c)"
    using assms by (cases "getHiddenApps ext") simp
  have c: "c = [] \<or> c = [Get_strv]"
    using g by (auto simp: getHiddenApps_def split: option.splits)
  have "shouldHideApp ext app = (False, c)" "shouldHideWindow ext tr w = (False, c)"
    by (simp_all add: shouldHideApp_def shouldHideWindow_def g)
  with c show ?thesis
    by (auto simp: g)
qed

theorem empty_hidden_set_inspects_nothing_witness:
  "fst (getHiddenApps \<lparr>settings = Some \<lparr>hidden_apps = []\<rparr>\<rparr>) = [] \<and>
   shouldHideApp \<lparr>settings = Some \<lparr>hidden_apps = []\<rparr>\<rparr>
     (Some \<lparr>app_id = ''org.gnome.Calculator.desktop''\<rparr>) = (False, [Get_strv]) \<and>
   shouldHideWindow \<lparr>settings = Some \<lparr>hidden_apps = []\<rparr>\<rparr>
     (\<lambda>w. Some \<lparr>app_id = ''org.gnome.Calculator.desktop''\<rparr>) (Window 1) = (False, [Get_strv])"
  using empty_hidden_set_inspects_nothing [of "\<lparr>settings = Some \<lparr>hidden_apps = []\<rparr>\<rparr>"
      "Some \<lparr>app_id = ''org.gnome.Calculator.desktop''\<rparr>"
      "\<lambda>w. Some \<lparr>app_id = ''org.gnome.Calculator.desktop''\<rparr>" "Window 1"]
  by (simp add: getHiddenApps_def)

subsection \<open>The window-list overrides\<close>

text \<open>
  Claim C2. Let the original routine return a reference to a live array. Each of the
  three overrides (\<^verbatim>\<open>WindowSwitcherPopup._getWindowList\<close>,
  \<^verbatim>\<open>WindowCyclerPopup._getWindows\<close>, \<^verbatim>\<open>GroupCyclerPopup._getWindows\<close>) then returns a
  new array that holds exactly the windows for which the window form of the predicate
  returns false, in their original order, and leaves the original array, and every
  other array, as it was.
\<close>

theorem window_overrides_filter:
  assumes "originalMethod st = (windows, st1)" and "windows < length st1"
  shows "filteredCopy ext tr windows st1 (WindowSwitcherPopup_getWindowList ext tr originalMethod st) \<and>
         filteredCopy ext tr windows st1 (WindowCyclerPopup_getWindows ext tr originalMethod st) \<and>
         filteredCopy ext tr windows st1 (GroupCyclerPopup_getWindows ext tr originalMethod st)"
  using assms filteredWindows_copy [of originalMethod st windows st1 ext tr]
  by (simp add: WindowSwitcherPopup_getWindowList_def WindowCyclerPopup_getWindows_def
      GroupCyclerPopup_getWindows_def)

text \<open>
  The scenario of the specification: with the calculator hidden, the windows of the
  calculator, of the file manager and of no application become the last two.
\<close>

theorem window_overrides_filter_witness:
  "(let ext = \<lparr>settings = Some \<lparr>hidden_apps = [''org.gnome.Calculator.desktop'']\<rparr>\<rparr>;
        tr = (\<lambda>w. if w = Window 0 then Some \<lparr>app_id = ''org.gnome.Calculator.desktop''\<rparr>
                   else if w = Window 1 then Some \<lparr>app_id = ''org.gnome.Nautilus.desktop''\<rparr>
                   else None);
        st = [[Window 0, Window 1, Window 2]];
        orig = (\<lambda>s. (0, s))
    in orig st = (0, st) \<and> 0 < length st \<and>
       returned (WindowSwitcherPopup_getWindowList ext tr orig st) = [Window 1, Window 2] \<and>
       returned (WindowCyclerPopup_getWindows ext tr orig st) = [Window 1, Window 2] \<and>
       returned (GroupCyclerPopup_getWindows ext tr orig st) = [Window 1, Window 2] \<and>
       fst (fst (WindowSwitcherPopup_getWindowList ext tr orig st)) \<noteq> 0 \<and>
       snd (fst (WindowSwitcherPopup_getWindowList ext tr orig st)) ! 0 = [Window 0, Window 1, Window 2])"
  using window_overrides_filter [of "\<lambda>s. (0, s)" "[[Window 0, Window 1, Window 2]]" 0
      "[[Window 0, Window 1, Window 2]]"
      "\<lparr>settings = Some \<lparr>hidden_apps = [''org.gnome.Calculator.desktop'']\<rparr>\<rparr>"
      "\<lambda>w. if w = Window 0 then Some \<lparr>app_id = ''org.gnome.Calculator.desktop''\<rparr>
                   else if w = Window 1 then Some \<lparr>app_id = ''org.gnome.Nautilus.desktop''\<rparr>
                   else None"]
  by (simp add: filteredCopy_def shouldHideWindow_def getHiddenApps_def Let_def)

text \<open>
  Claim C8. Filtering is idempotent: when the original routine hands back the list an
  override has already filtered, with the same hidden set, the override returns that
  list again; and on the arrays themselves, filtering twice is filtering once.
\<close>

theorem window_filter_idempotent:
  "returned (filteredWindows ext tr (\<lambda>s. fst (filteredWindows ext tr originalMethod st)) st') =
     returned (filteredWindows ext tr originalMethod st) \<and>
   fst (array_filter (notHidden ext tr) (fst (array_filter (notHidden ext tr) L))) =
     fst (array_filter (notHidden ext tr) L)"
proof -
  obtain windows st1 where o: "originalMethod st = (windows, st1)"
    by (cases "originalMethod st")
  have r: "\<And>orig s. returned (filteredWindows ext tr orig s) =
       fst (array_filter (notHidden ext tr) (snd (orig s) ! fst (orig s)))"
    by (simp add: filteredWindows_def returned_def split: prod.splits)
  have once: "fst (filteredWindows ext tr originalMethod st) =
      (length st1, st1 @ [fst (array_filter (notHidden ext tr) (st1 ! windows))])"
    using o by (simp add: filteredWindows_def split: prod.splits)
  show ?thesis
    by (simp add: r once o array_filter_fst)
qed

subsection \<open>The main switcher override\<close>

text \<open>
  Claim C3. Let the original \<^verbatim>\<open>_init\<close> leave the popup in the shape the source
  describes (lines 165 and 166): \<^verbatim>\<open>this._items\<close> is the \<^verbatim>\<open>icons\<close> array of
  \<^verbatim>\<open>this._switcherList\<close>, the list has one visual entry per icon, and its
  \<^verbatim>\<open>removeItem(index)\<close> removes the visual entry at the index. Then the override
  returns normally; the icons array holds the entries that are not marked, in their
  original order, and the visual list the entries at the same positions;
  \<^verbatim>\<open>removeItem\<close> has been called with the marked indices from the highest to the lowest;
  and the marked indices are those of the entries whose application identifier is in
  the hidden set.
\<close>

theorem AppSwitcherPopup_init_removes_hidden:
  assumes "originalMethod w0 = Inr w"
    and "items (popup w) = Some a"
    and "switcherList (popup w) = Some sl"
    and "icons sl = Some a"
    and "removeItem sl = Some splice1"
    and "a < length (arrays w)"
    and "length (visual sl) = length (arrays w ! a)"
  shows "AppSwitcherPopup_init ext originalMethod w0 =
     Inr (w\<lparr>arrays := (arrays w)[a := filter (\<lambda>e. \<not> hiddenEntry (fst (getHiddenApps ext)) e) (arrays w ! a)],
            popup := (popup w)\<lparr>switcherList :=
              Some (sl\<lparr>visual := map snd (filter (\<lambda>(e, v). \<not> hiddenEntry (fst (getHiddenApps ext)) e)
                                       (zip (arrays w ! a) (visual sl)))\<rparr>)\<rparr>,
            removeItem_calls := removeItem_calls w @ rev (markedIndices (fst (getHiddenApps ext)) (arrays w ! a))\<rparr>) \<and>
     sorted_wrt (>) (rev (markedIndices (fst (getHiddenApps ext)) (arrays w ! a))) \<and>
     set (markedIndices (fst (getHiddenApps ext)) (arrays w ! a)) =
       {j. j < length (arrays w ! a) \<and> hiddenEntry (fst (getHiddenApps ext)) (arrays w ! a ! j)}"
proof -
  have vis: "foldr splice1 (markedIndices (fst (getHiddenApps ext)) (arrays w ! a)) (visual sl) =
      map snd (filter (\<lambda>(e, v). \<not> hiddenEntry (fst (getHiddenApps ext)) e) (zip (arrays w ! a) (visual sl)))"
    unfolding markedIndices_def using assms(7) by (rule foldr_splice1_marked)
  have "AppSwitcherPopup_init ext originalMethod w0 =
     Inr (w\<lparr>arrays := (arrays w)[a := filter (\<lambda>e. \<not> hiddenEntry (fst (getHiddenApps ext)) e) (arrays w ! a)],
            popup := (popup w)\<lparr>switcherList :=
              Some (sl\<lparr>visual := foldr splice1 (markedIndices (fst (getHiddenApps ext)) (arrays w ! a)) (visual sl)\<rparr>)\<rparr>,
            removeItem_calls := removeItem_calls w @ rev (markedIndices (fst (getHiddenApps ext)) (arrays w ! a))\<rparr>)"
    using assms(1-6) by (rule init_shape)
  then show ?thesis
    by (simp only: vis markedIndices_desc markedIndices_set simp_thms)
qed

text \<open>
  Three icons, the first and the last of the hidden calculator: the file manager
  remains, and \<^verbatim>\<open>removeItem\<close> was called with 2, then 0.
\<close>

theorem AppSwitcherPopup_init_removes_hidden_witness:
  "(let ext = \<lparr>settings = Some \<lparr>hidden_apps = [''org.gnome.Calculator.desktop'']\<rparr>\<rparr>;
        calcIcon = Some \<lparr>icon_app = Some \<lparr>app_id = ''org.gnome.Calculator.desktop''\<rparr>\<rparr>;
        filesIcon = Some \<lparr>icon_app = Some \<lparr>app_id = ''org.gnome.Nautilus.desktop''\<rparr>\<rparr>;
        sl = \<lparr>icons = Some 0, visual = [''calc'', ''files'', ''calc2''], removeItem = Some splice1\<rparr>;
        w = \<lparr>arrays = [[calcIcon, filesIcon, calcIcon]],
             popup = \<lparr>items = Some 0, switcherList = Some sl\<rparr>,
             removeItem_calls = []\<rparr>
    in items (popup w) = Some 0 \<and> switcherList (popup w) = Some sl \<and> icons sl = Some 0 \<and>
       removeItem sl = Some splice1 \<and> 0 < length (arrays w) \<and>
       length (visual sl) = length (arrays w ! 0) \<and>
       AppSwitcherPopup_init ext Inr w =
         Inr \<lparr>arrays = [[filesIcon]],
              popup = \<lparr>items = Some 0,
                       switcherList = Some \<lparr>icons = Some 0, visual = [''files''], removeItem = Some splice1\<rparr>\<rparr>,
              removeItem_calls = [2, 0]\<rparr>)"
  using AppSwitcherPopup_init_removes_hidden [of Inr
      "\<lparr>arrays = [[Some \<lparr>icon_app = Some \<lparr>app_id = ''org.gnome.Calculator.desktop''\<rparr>\<rparr>,
                    Some \<lparr>icon_app = Some \<lparr>app_id = ''org.gnome.Nautilus.desktop''\<rparr>\<rparr>,
                    Some \<lparr>icon_app = Some \<lparr>app_id = ''org.gnome.Calculator.desktop''\<rparr>\<rparr>]],
        popup = \<lparr>items = Some 0,
                 switcherList = Some \<lparr>icons = Some 0, visual = [''calc'', ''files'', ''calc2''],
                                      removeItem = Some splice1\<rparr>\<rparr>,
        removeItem_calls = []\<rparr>"
      "\<lparr>arrays = [[Some \<lparr>icon_app = Some \<lparr>app_id = ''org.gnome.Calculator.desktop''\<rparr>\<rparr>,
                    Some \<lparr>icon_app = Some \<lparr>app_id = ''org.gnome.Nautilus.desktop''\<rparr>\<rparr>,
                    Some \<lparr>icon_app = Some \<lparr>app_id = ''org.gnome.Calculator.desktop''\<rparr>\<rparr>]],
        popup = \<lparr>items = Some 0,
                 switcherList = Some \<lparr>icons = Some 0, visual = [''calc'', ''files'', ''calc2''],
                                      removeItem = Some splice1\<rparr>\<rparr>,
        removeItem_calls = []\<rparr>"
      0
      "\<lparr>icons = Some 0, visual = [''calc'', ''files'', ''calc2''], removeItem = Some splice1\<rparr>"
      "\<lparr>settings = Some \<lparr>hidden_apps = [''org.gnome.Calculator.desktop'']\<rparr>\<rparr>"]
  by (simp add: Let_def markedIndices_def hiddenEntry_def getHiddenApps_def upt_conv_Cons)

text \<open>
  Claim C5. The claim: when the switcher list is absent after the original
  \<^verbatim>\<open>_init\<close>, the wrapper does no filtering, leaves the state as it was and propagates
  no error. The code: with a non-empty \<^verbatim>\<open>_items\<close> and a null \<^verbatim>\<open>_switcherList\<close> the
  second loop skips its body, as its guard intends, and line 199,
  \<^verbatim>\<open>this._items = this._switcherList.icons\<close>, then throws a TypeError, which the
  wrapper does not catch.
\<close>

theorem AppSwitcherPopup_init_throws_without_switcherList:
  "AppSwitcherPopup_init
     \<lparr>settings = Some \<lparr>hidden_apps = [''org.gnome.Calculator.desktop'']\<rparr>\<rparr>
     Inr
     \<lparr>arrays = [[Some \<lparr>icon_app = Some \<lparr>app_id = ''org.gnome.Calculator.desktop''\<rparr>\<rparr>]],
      popup = \<lparr>items = Some 0, switcherList = None\<rparr>,
      removeItem_calls = []\<rparr>
   = Inl TypeError"
  by (simp add: AppSwitcherPopup_init_def removeLoop_no_list Let_def)

text \<open>
  Claim C10. For every hidden set the app form of the predicate returns false on a
  missing application handle. In the main switcher override the first loop never marks
  the index of an entry whose icon or whose \<^verbatim>\<open>app\<close> is missing; and on a popup of the
  shape the host leaves, whatever \<^verbatim>\<open>removeItem\<close> does to the visual list, the override
  returns normally, every such entry is still in the icons array, in order, and no
  call of \<^verbatim>\<open>removeItem\<close> it made was at the index of such an entry.
\<close>

theorem absent_app_never_hidden:
  "fst (shouldHideApp ext None) = False \<and>
   (\<forall>j < length its. absentApp (its ! j) \<longrightarrow>
      j \<notin> set (collectIndices (fst (getHiddenApps ext)) its 0 [])) \<and>
   (originalMethod w0 = Inr w \<and> items (popup w) = Some a \<and> switcherList (popup w) = Some sl \<and>
    icons sl = Some a \<and> removeItem sl = Some rm \<and> a < length (arrays w) \<longrightarrow>
      (\<exists>w'. AppSwitcherPopup_init ext originalMethod w0 = Inr w' \<and>
            filter absentApp (arrays w' ! a) = filter absentApp (arrays w ! a) \<and>
            (\<forall>j \<in> set (drop (length (removeItem_calls w)) (removeItem_calls w')).
               j < length (arrays w ! a) \<and> \<not> absentApp (arrays w ! a ! j))))"
proof (intro conjI impI allI)
  show "fst (shouldHideApp ext None) = False"
    by (cases "getHiddenApps ext") (simp add: shouldHideApp_def)
next
  fix j
  assume "j < length its" and "absentApp (its ! j)"
  then show "j \<notin> set (collectIndices (fst (getHiddenApps ext)) its 0 [])"
    by (auto simp: collectIndices_eq dest: absent_not_hidden)
next
  let ?H = "fst (getHiddenApps ext)"
  let ?its = "arrays w ! a"
  let ?w' = "w\<lparr>arrays := (arrays w)[a := filter (\<lambda>e. \<not> hiddenEntry ?H e) ?its],
            popup := (popup w)\<lparr>switcherList :=
              Some (sl\<lparr>visual := foldr rm (markedIndices ?H ?its) (visual sl)\<rparr>)\<rparr>,
            removeItem_calls := removeItem_calls w @ rev (markedIndices ?H ?its)\<rparr>"
  assume shape: "originalMethod w0 = Inr w \<and> items (popup w) = Some a \<and>
    switcherList (popup w) = Some sl \<and> icons sl = Some a \<and> removeItem sl = Some rm \<and>
    a < length (arrays w)"
  then have run: "AppSwitcherPopup_init ext originalMethod w0 = Inr ?w'"
    by (intro init_shape) simp_all
  have "filter absentApp (arrays ?w' ! a) = filter absentApp ?its"
    using shape by (simp add: filter_absent_kept del: filter_filter)
  moreover have "\<forall>j \<in> set (drop (length (removeItem_calls w)) (removeItem_calls ?w')).
      j < length ?its \<and> \<not> absentApp (?its ! j)"
    by (auto simp: markedIndices_set dest: absent_not_hidden)
  ultimately show "\<exists>w'. AppSwitcherPopup_init ext originalMethod w0 = Inr w' \<and>
      filter absentApp (arrays w' ! a) = filter absentApp ?its \<and>
      (\<forall>j \<in> set (drop (length (removeItem_calls w)) (removeItem_calls w')).
         j < length ?its \<and> \<not> absentApp (?its ! j))"
    using run by blast
qed

text \<open>
  An icon without an app, the hidden calculator and a missing icon: the first and the
  last stay.
\<close>

theorem absent_app_never_hidden_witness:
  "(let ext = \<lparr>settings = Some \<lparr>hidden_apps = [''org.gnome.Calculator.desktop'']\<rparr>\<rparr>;
        calcIcon = Some \<lparr>icon_app = Some \<lparr>app_id = ''org.gnome.Calculator.desktop''\<rparr>\<rparr>;
        noApp = Some \<lparr>icon_app = None\<rparr>;
        its = [noApp, calcIcon, None];
        sl = \<lparr>icons = Some 0, visual = [''v0'', ''v1'', ''v2''], removeItem = Some splice1\<rparr>;
        w = \<lparr>arrays = [its], popup = \<lparr>items = Some 0, switcherList = Some sl\<rparr>,
             removeItem_calls = []\<rparr>
    in fst (shouldHideApp ext None) = False \<and>
       absentApp (its ! 0) \<and> absentApp (its ! 2) \<and>
       0 \<notin> set (collectIndices (fst (getHiddenApps ext)) its 0 []) \<and>
       2 \<notin> set (collectIndices (fst (getHiddenApps ext)) its 0 []) \<and>
       items (popup w) = Some 0 \<and> switcherList (popup w) = Some sl \<and> icons sl = Some 0 \<and>
       removeItem sl = Some splice1 \<and> 0 < length (arrays w) \<and>
       (\<exists>w'. AppSwitcherPopup_init ext Inr w = Inr w' \<and>
             filter absentApp (arrays w' ! 0) = [noApp, None]))"
  using absent_app_never_hidden [of
      "\<lparr>settings = Some \<lparr>hidden_apps = [''org.gnome.Calculator.desktop'']\<rparr>\<rparr>"
      "[Some \<lparr>icon_app = None\<rparr>,
        Some \<lparr>icon_app = Some \<lparr>app_id = ''org.gnome.Calculator.desktop''\<rparr>\<rparr>, None]"
      Inr
      "\<lparr>arrays = [[Some \<lparr>icon_app = None\<rparr>,
                    Some \<lparr>icon_app = Some \<lparr>app_id = ''org.gnome.Calculator.desktop''\<rparr>\<rparr>, None]],
        popup = \<lparr>items = Some 0,
                 switcherList = Some \<lparr>icons = Some 0, visual = [''v0'', ''v1'', ''v2''],
                                      removeItem = Some splice1\<rparr>\<rparr>,
        removeItem_calls = []\<rparr>"
      "\<lparr>arrays = [[Some \<lparr>icon_app = None\<rparr>,
                    Some \<lparr>icon_app = Some \<lparr>app_id = ''org.gnome.Calculator.desktop''\<rparr>\<rparr>, None]],
        popup = \<lparr>items = Some 0,
                 switcherList = Some \<lparr>icons = Some 0, visual = [''v0'', ''v1'', ''v2''],
                                      removeItem = Some splice1\<rparr>\<rparr>,
        removeItem_calls = []\<rparr>"
      0
      "\<lparr>icons = Some 0, visual = [''v0'', ''v1'', ''v2''], removeItem = Some splice1\<rparr>"
      splice1]
  by (auto simp: Let_def absentApp_def)

subsection \<open>The preferences panel\<close>

text \<open>
  Claim C9. From a list without duplicates, toggling a checkbox on or off
  (\<^verbatim>\<open>_onAppToggled\<close>) and removing an entry (\<^verbatim>\<open>_removeHiddenApp\<close>, with the
  \<^verbatim>\<open>toggled\<close> handler its \<^verbatim>\<open>set_active(false)\<close> may run) write back a list without
  duplicates. Toggling on appends the identifier only when it is absent, and removing
  an identifier that is not in the list leaves the list as it was.
\<close>

theorem prefs_mutations_keep_distinct:
  assumes "distinct (hidden_apps (prefs_settings p))"
  shows "distinct (hidden_apps (prefs_settings (onAppToggled appId isActive p))) \<and>
         distinct (hidden_apps (prefs_settings (removeHiddenApp appId p))) \<and>
         hidden_apps (prefs_settings (onAppToggled appId True p)) =
           (if appId \<in> set (hidden_apps (prefs_settings p)) then hidden_apps (prefs_settings p)
            else hidden_apps (prefs_settings p) @ [appId]) \<and>
         (appId \<notin> set (hidden_apps (prefs_settings p)) \<longrightarrow>
            hidden_apps (prefs_settings (removeHiddenApp appId p)) = hidden_apps (prefs_settings p))"
  using assms by (auto simp: onAppToggled_hidden removeHiddenApp_hidden filter_id_conv)

theorem prefs_mutations_keep_distinct_witness:
  "(let p = \<lparr>prefs_settings = \<lparr>hidden_apps = [''a.desktop'', ''b.desktop'']\<rparr>,
             checkboxes = [''a.desktop'' \<mapsto> True, ''c.desktop'' \<mapsto> False]\<rparr>
    in distinct (hidden_apps (prefs_settings p)) \<and>
       hidden_apps (prefs_settings (onAppToggled ''c.desktop'' True p)) =
         [''a.desktop'', ''b.desktop'', ''c.desktop''] \<and>
       hidden_apps (prefs_settings (onAppToggled ''a.desktop'' True p)) =
         [''a.desktop'', ''b.desktop''] \<and>
       hidden_apps (prefs_settings (onAppToggled ''a.desktop'' False p)) = [''b.desktop''] \<and>
       hidden_apps (prefs_settings (removeHiddenApp ''a.desktop'' p)) = [''b.desktop''] \<and>
       ''c.desktop'' \<notin> set (hidden_apps (prefs_settings p)) \<and>
       hidden_apps (prefs_settings (removeHiddenApp ''c.desktop'' p)) =
         [''a.desktop'', ''b.desktop''])"
  using prefs_mutations_keep_distinct [of
      "\<lparr>prefs_settings = \<lparr>hidden_apps = [''a.desktop'', ''b.desktop'']\<rparr>,
        checkboxes = [''a.desktop'' \<mapsto> True, ''c.desktop'' \<mapsto> False]\<rparr>" "''c.desktop''" True]
    prefs_mutations_keep_distinct [of
      "\<lparr>prefs_settings = \<lparr>hidden_apps = [''a.desktop'', ''b.desktop'']\<rparr>,
        checkboxes = [''a.desktop'' \<mapsto> True, ''c.desktop'' \<mapsto> False]\<rparr>" "''a.desktop''" True]
  by (simp add: Let_def onAppToggled_hidden removeHiddenApp_hidden)

subsection \<open>Further results\<close>

text \<open>
  Where the main switcher override does leave the popup alone: \<^verbatim>\<open>_items\<close> is absent or
  empty, or the switcher list has no \<^verbatim>\<open>removeItem\<close> function while its \<^verbatim>\<open>icons\<close> is
  still the array \<^verbatim>\<open>_items\<close> refers to. The override then returns normally with the
  state the original \<^verbatim>\<open>_init\<close> produced.
\<close>

theorem AppSwitcherPopup_init_fail_open:
  assumes "originalMethod w0 = Inr w"
    and "items (popup w) = None \<or>
         (\<exists>a. items (popup w) = Some a \<and> arrays w ! a = []) \<or>
         (\<exists>a sl. items (popup w) = Some a \<and> switcherList (popup w) = Some sl \<and>
                 removeItem sl = None \<and> icons sl = Some a)"
  shows "AppSwitcherPopup_init ext originalMethod w0 = Inr w"
proof -
  have noRemove: "removeLoop k idxs w = Inr w"
    if "switcherList (popup w) = Some sl" and "removeItem sl = None" for k idxs sl
    using that by (induction k) simp_all
  have same: "w\<lparr>popup := (popup w)\<lparr>items := Some a\<rparr>\<rparr> = w" if "items (popup w) = Some a" for a
    using that by (cases w, cases "popup w") simp
  from assms(2) consider
      (absent) "items (popup w) = None"
    | (empty) a where "items (popup w) = Some a" "arrays w ! a = []"
    | (noFun) a sl where "items (popup w) = Some a" "switcherList (popup w) = Some sl"
        "removeItem sl = None" "icons sl = Some a"
    by (elim disjE exE conjE) blast+
  then show ?thesis
  proof cases
    case absent
    with assms(1) show ?thesis by (simp add: AppSwitcherPopup_init_def)
  next
    case empty
    with assms(1) show ?thesis by (simp add: AppSwitcherPopup_init_def)
  next
    case noFun
    with assms(1) show ?thesis
      by (simp add: AppSwitcherPopup_init_def Let_def noRemove [OF noFun(2,3)] same)
  qed
qed

theorem AppSwitcherPopup_init_fail_open_witness:
  "(let ext = \<lparr>settings = Some \<lparr>hidden_apps = [''org.gnome.Calculator.desktop'']\<rparr>\<rparr>;
        calcIcon = Some \<lparr>icon_app = Some \<lparr>app_id = ''org.gnome.Calculator.desktop''\<rparr>\<rparr>;
        sl = \<lparr>icons = Some 0, visual = [''calc''], removeItem = None\<rparr>;
        w = \<lparr>arrays = [[calcIcon]], popup = \<lparr>items = Some 0, switcherList = Some sl\<rparr>,
             removeItem_calls = []\<rparr>
    in items (popup w) = Some 0 \<and> switcherList (popup w) = Some sl \<and>
       removeItem sl = None \<and> icons sl = Some 0 \<and>
       AppSwitcherPopup_init ext Inr w = Inr w)"
  using AppSwitcherPopup_init_fail_open [of Inr
      "\<lparr>arrays = [[Some \<lparr>icon_app = Some \<lparr>app_id = ''org.gnome.Calculator.desktop''\<rparr>\<rparr>]],
        popup = \<lparr>items = Some 0,
                 switcherList = Some \<lparr>icons = Some 0, visual = [''calc''], removeItem = None\<rparr>\<rparr>,
        removeItem_calls = []\<rparr>"
      "\<lparr>arrays = [[Some \<lparr>icon_app = Some \<lparr>app_id = ''org.gnome.Calculator.desktop''\<rparr>\<rparr>]],
        popup = \<lparr>items = Some 0,
                 switcherList = Some \<lparr>icons = Some 0, visual = [''calc''], removeItem = None\<rparr>\<rparr>,
        removeItem_calls = []\<rparr>"
      "\<lparr>settings = Some \<lparr>hidden_apps = [''org.gnome.Calculator.desktop'']\<rparr>\<rparr>"]
  by (simp add: Let_def)

text \<open>
  Toggling the checkbox of an application that is not hidden on and then off writes
  back the list it started from.
\<close>

theorem toggle_on_off_restores:
  assumes "appId \<notin> set (hidden_apps (prefs_settings p))"
  shows "hidden_apps (prefs_settings (onAppToggled appId False (onAppToggled appId True p))) =
         hidden_apps (prefs_settings p)"
  using assms by (auto simp: onAppToggled_hidden filter_id_conv)

theorem toggle_on_off_restores_witness:
  "''c.desktop'' \<notin> set [''a.desktop'', ''b.desktop''] \<and>
   hidden_apps (prefs_settings
     (onAppToggled ''c.desktop'' False
       (onAppToggled ''c.desktop'' True
         \<lparr>prefs_settings = \<lparr>hidden_apps = [''a.desktop'', ''b.desktop'']\<rparr>,
          checkboxes = Map.empty\<rparr>))) = [''a.desktop'', ''b.desktop'']"
  using toggle_on_off_restores [of "''c.desktop''"
      "\<lparr>prefs_settings = \<lparr>hidden_apps = [''a.desktop'', ''b.desktop'']\<rparr>,
        checkboxes = Map.empty\<rparr>"]
  by simp

end
